theory Spec2Isabelle
  imports Main "HOL-Library.Word"
begin

section \<open>Severity levels\<close>

text \<open>
  Modelled from the spec: the declaration of the type \<open>Level\<close> and of its constants
  (level.go) is not among the sources; only its uses are. The spec orders the levels by
  severity ("lower enum value = more severe; OFF excludes all"), the tests name the six
  constants and convert an arbitrary unsigned number, \<open>Level(42)\<close>, to a level. A level
  is therefore an unsigned number, \<open>OFF\<close> the least one.
\<close>

type_synonym Level = nat

definition OFF :: Level where "OFF = 0"
definition FATAL :: Level where "FATAL = 1"
definition ERROR :: Level where "ERROR = 2"
definition WARN :: Level where "WARN = 3"
definition INFO :: Level where "INFO = 4"
definition DEBUG :: Level where "DEBUG = 5"

section \<open>Events\<close>

text \<open>
  A collector is identified by a number (the registry is keyed by the collector's
  identity). An \<open>error\<close> value is its text; the nil error is \<open>None\<close>.
\<close>

type_synonym cid = nat
type_synonym error = string

text \<open>
  Operands of a format string and values of context fields. A message is kept as its
  format and operands: what \<open>fmt.Sprintf\<close> renders from them is outside this model.
  A message given as a plain string has no operands.
\<close>

datatype fmtarg = AStr string | AInt int | AUint "64 word" | ACollector cid | ATime nat

type_synonym message = "string \<times> fmtarg list"

record Context =
  ctx_name :: string
  ctx_pairs :: "(string \<times> fmtarg) list"

definition NewContext :: "string \<Rightarrow> Context" where
  "NewContext n = \<lparr>ctx_name = n, ctx_pairs = []\<rparr>"

definition WithValue :: "string \<Rightarrow> fmtarg \<Rightarrow> Context \<Rightarrow> Context" where
  "WithValue k v c = (if k = [] then c else c\<lparr>ctx_pairs := (k, v) # ctx_pairs c\<rparr>)"

text \<open>\<open>WithFields\<close> ranges over a Go map; the fields are given here in the order met.\<close>

fun WithFields :: "(string \<times> fmtarg) list \<Rightarrow> Context \<Rightarrow> Context" where
  "WithFields [] c = c"
| "WithFields ((k, v) # fs) c = WithFields fs (WithValue k v c)"

record Event =
  Time :: nat
  Level :: Level
  Context :: Context
  Frames :: "nat list"
  Error :: "error option"
  Message :: message

definition newEvent :: "nat \<Rightarrow> Context \<Rightarrow> Level \<Rightarrow> error option \<Rightarrow> message \<Rightarrow> Event" where
  "newEvent tm ctx level cause msg =
     \<lparr>Time = tm, Level = level, Context = ctx, Frames = [], Error = cause,
      Message = msg\<rparr>"

definition newEventf ::
  "nat \<Rightarrow> Context \<Rightarrow> Level \<Rightarrow> error option \<Rightarrow> string \<Rightarrow> fmtarg list \<Rightarrow> Event" where
  "newEventf tm ctx level cause format vals =
     \<lparr>Time = tm, Level = level, Context = ctx, Frames = [], Error = cause,
      Message = (format, vals)\<rparr>"

text \<open>
  \<open>captureFrames\<close>: the program counters come from the Go runtime, here the function
  \<open>rt\<close> of the skip count, the depth and the recovering flag.
\<close>

definition captureFrames ::
  "(int \<Rightarrow> int \<Rightarrow> bool \<Rightarrow> nat list) \<Rightarrow> int \<Rightarrow> int \<Rightarrow> int \<Rightarrow> bool \<Rightarrow> Event \<Rightarrow> Event" where
  "captureFrames rt skip depth errorDepth recovering e =
     (let skip' = skip + 1;
          depth' = (if Level e = ERROR \<or> Level e = FATAL then errorDepth else depth)
      in if depth' \<le> 0 then e else e\<lparr>Frames := rt skip' depth' recovering\<rparr>)"

section \<open>The configuration snapshot\<close>

type_synonym wref = nat

record entry =
  threshold :: Level
  degraded :: bool
  worker :: wref

text \<open>
  The registry is a Go map from collectors to entries: an association list with
  distinct keys, ranged over in list order.
\<close>

type_synonym registry = "(cid \<times> entry) list"

record config =
  cthreshold :: Level
  frames :: int
  errorFrames :: int
  registry :: registry

definition entry_clone :: "entry \<Rightarrow> entry" where
  "entry_clone e = \<lparr>threshold = threshold e, degraded = degraded e, worker = worker e\<rparr>"

definition newConfig :: config where
  "newConfig = \<lparr>cthreshold = OFF, frames = 1, errorFrames = 1, registry = []\<rparr>"

definition clone :: "config \<Rightarrow> config" where
  "clone c = \<lparr>cthreshold = cthreshold c, frames = frames c, errorFrames = errorFrames c,
              registry = map (\<lambda>(k, e). (k, entry_clone e)) (registry c)\<rparr>"

text \<open>The loop of \<open>updateThreshold\<close>, with its running maximum.\<close>

fun updateThreshold_loop :: "registry \<Rightarrow> Level \<Rightarrow> Level" where
  "updateThreshold_loop [] mx = mx"
| "updateThreshold_loop ((k, e) # es) mx =
     updateThreshold_loop es (if threshold e > mx \<and> \<not> degraded e then threshold e else mx)"

definition updateThreshold :: "config \<Rightarrow> config" where
  "updateThreshold c = c\<lparr>cthreshold := updateThreshold_loop (registry c) OFF\<rparr>"

text \<open>Registry access: lookup, assignment to a key (\<open>reg[c] = e\<close>) and \<open>delete\<close>.\<close>

definition reg_lookup :: "registry \<Rightarrow> cid \<Rightarrow> entry option" where
  "reg_lookup reg c = map_of reg c"

fun reg_store :: "cid \<Rightarrow> entry \<Rightarrow> registry \<Rightarrow> registry" where
  "reg_store c e [] = [(c, e)]"
| "reg_store c e ((k, x) # es) = (if k = c then (k, e) # es else (k, x) # reg_store c e es)"

definition reg_delete :: "cid \<Rightarrow> registry \<Rightarrow> registry" where
  "reg_delete c reg = filter (\<lambda>(k, e). k \<noteq> c) reg"

section \<open>Backoff\<close>

text \<open>
  \<open>math.Pow(2, float64(attempt))\<close> at a whole exponent is a power of two, exactly:
  \<open>+Inf\<close> above the largest exponent 1023, zero below the least one -1074, never a NaN.
\<close>

datatype float64 = PosInf | Zero | Pow2 int

definition math_Pow2 :: "int \<Rightarrow> float64" where
  "math_Pow2 x = (if x > 1023 then PosInf else if x < - 1074 then Zero else Pow2 x)"

definition IsNaN :: "float64 \<Rightarrow> bool" where
  "IsNaN f = False"

definition IsInf :: "float64 \<Rightarrow> int \<Rightarrow> bool" where
  "IsInf f sign = (f = PosInf \<and> sign \<ge> 0)"

text \<open>
  The conversion \<open>time.Duration(exp)\<close> truncates towards zero. Go leaves the result open
  where the value does not fit 64 bits; amd64 gives the least 64-bit integer.
\<close>

definition to_int64 :: "float64 \<Rightarrow> 64 word" where
  "to_int64 f = (case f of
      PosInf \<Rightarrow> word_of_int (- (2 ^ 63))
    | Zero \<Rightarrow> 0
    | Pow2 e \<Rightarrow> (if e < 0 then 0 else if e \<le> 62 then word_of_int (2 ^ nat e)
                 else word_of_int (- (2 ^ 63))))"

text \<open>Durations are 64-bit signed counts of nanoseconds.\<close>

definition Millisecond :: "64 word" where "Millisecond = 1000000"

definition maxDelay :: int where "maxDelay = 5 * 60 * 1000000000"

definition backoff :: "int \<Rightarrow> int" where
  "backoff attempt =
     (let exp = math_Pow2 attempt
      in if IsNaN exp \<or> IsInf exp 1 \<or> IsInf exp (- 1) then maxDelay
         else (let delay = sint (Millisecond * to_int64 exp)
               in if delay > maxDelay then maxDelay else delay))"

section \<open>Collectors, workers and the state of the program\<close>

text \<open>
  What a call of a collector's \<open>Collect\<close> does: return nil, return an error, or panic.
  A collector is any deterministic object behind the interface: its answer is a function
  of the calls it has received so far and of the event.
\<close>

datatype outcome = Ok | Err error | Panics string

datatype call = CollectCall Event | CloseCall

record syncWorker =
  sw_collector :: cid
  terminated :: bool
  sw_drops :: "64 word"

text \<open>A buffered channel of events: its buffer, its capacity and whether it is closed.\<close>

record chan =
  buf :: "Event list"
  cap :: nat
  closed :: bool

text \<open>The \<open>queue\<close> of an asynchronous worker is \<open>None\<close> once \<open>cleanup\<close> has set it to nil.\<close>

record asyncWorker =
  aw_drops :: "64 word"
  aw_collector :: cid
  queue :: "chan option"
  lastdrops :: "64 word"
  finished :: bool

datatype worker = Sync syncWorker | Async asyncWorker

text \<open>The goroutines that the workers start with \<open>go\<close>, kept until they are scheduled.\<close>

datatype task =
    GoErrorf "64 word" error cid
  | GoWarnf cid
  | GoDispose cid string

text \<open>
  The state: the published snapshot \<open>cfg\<close>, whether the mutex of the configuration is
  held (\<open>locked\<close>), the counter \<open>sending\<close>, the worker objects
  by reference, each collector's received calls and behaviour (\<open>closer\<close> is \<open>None\<close> for
  a collector that is no \<open>io.Closer\<close>), the goroutines started, the clock in
  nanoseconds, the runtime's frame capture, and \<open>sent\<close>, a log of the invocations of a
  worker's \<open>Send\<close>, kept for stating properties.
\<close>

record world =
  cfg :: config
  locked :: bool
  sending :: "32 word"
  workers :: "wref \<Rightarrow> worker"
  nworkers :: nat
  history :: "cid \<Rightarrow> call list"
  behav :: "cid \<Rightarrow> call list \<Rightarrow> Event \<Rightarrow> outcome"
  closer :: "cid \<Rightarrow> (call list \<Rightarrow> error option) option"
  spawned :: "task list"
  now :: nat
  callers :: "int \<Rightarrow> int \<Rightarrow> bool \<Rightarrow> nat list"
  sent :: "(wref \<times> Event) list"

text \<open>
  A call returns, panics (the state reached is kept), or does not return: the recovery
  loop has used up the fuel it was given, or the call waits for a mutex that is held.
\<close>

datatype 'a result = Ret 'a | Panic string world | OutOfFuel

definition collector_Collect :: "cid \<Rightarrow> Event \<Rightarrow> world \<Rightarrow> outcome \<times> world" where
  "collector_Collect c ev w =
     (behav w c (history w c) ev,
      w\<lparr>history := (history w)(c := history w c @ [CollectCall ev])\<rparr>)"

definition Sleep :: "int \<Rightarrow> world \<Rightarrow> world" where
  "Sleep d w = (if d \<le> 0 then w else w\<lparr>now := now w + nat d\<rparr>)"

definition go :: "task \<Rightarrow> world \<Rightarrow> world" where
  "go t w = w\<lparr>spawned := spawned w @ [t]\<rparr>"

section \<open>Registry mutations\<close>

text \<open>
  Each mutation clones the published snapshot, changes the clone and publishes it; the
  \<open>_cfg\<close> function is the part between \<open>cfg.get()\<close> and \<open>cfg.set(new)\<close>, \<open>None\<close> where
  the source returns without publishing.
\<close>

definition collect_cfg :: "Level \<Rightarrow> cid \<Rightarrow> wref \<Rightarrow> config \<Rightarrow> config option" where
  "collect_cfg thr c wr old =
     (let new = clone old
      in case reg_lookup (registry new) c of
           Some e \<Rightarrow> None
         | None \<Rightarrow> Some (updateThreshold (new\<lparr>registry :=
                     reg_store c \<lparr>threshold = thr, degraded = False, worker = wr\<rparr> (registry new)\<rparr>)))"

definition SetLevel_cfg :: "Level \<Rightarrow> cid \<Rightarrow> config \<Rightarrow> config option" where
  "SetLevel_cfg thr c old =
     (let new = clone old
      in case reg_lookup (registry new) c of
           None \<Rightarrow> None
         | Some e \<Rightarrow> Some (updateThreshold (new\<lparr>registry :=
                     reg_store c (e\<lparr>threshold := thr\<rparr>) (registry new)\<rparr>)))"

definition SetFrames_cfg :: "int \<Rightarrow> int \<Rightarrow> config \<Rightarrow> config" where
  "SetFrames_cfg f ef old = (clone old)\<lparr>frames := f, errorFrames := ef\<rparr>"

definition setDegraded_cfg :: "cid \<Rightarrow> bool \<Rightarrow> config \<Rightarrow> config option" where
  "setDegraded_cfg c d old =
     (let new = clone old
      in case reg_lookup (registry new) c of
           None \<Rightarrow> None
         | Some e \<Rightarrow> Some (updateThreshold (new\<lparr>registry :=
                     reg_store c (e\<lparr>degraded := d\<rparr>) (registry new)\<rparr>)))"

definition dispose_cfg :: "cid \<Rightarrow> config \<Rightarrow> (config \<times> entry) option" where
  "dispose_cfg c old =
     (let new = clone old
      in case reg_lookup (registry new) c of
           None \<Rightarrow> None
         | Some e \<Rightarrow> Some (updateThreshold (new\<lparr>registry := reg_delete c (registry new)\<rparr>), e))"

text \<open>
  The update of the state that each mutation makes while it holds the mutex.
\<close>

definition SetLevel_upd :: "Level \<Rightarrow> cid \<Rightarrow> world \<Rightarrow> world" where
  "SetLevel_upd thr c w = (case SetLevel_cfg thr c (cfg w) of None \<Rightarrow> w | Some new \<Rightarrow> w\<lparr>cfg := new\<rparr>)"

definition SetFrames_upd :: "int \<Rightarrow> int \<Rightarrow> world \<Rightarrow> world" where
  "SetFrames_upd f ef w = w\<lparr>cfg := SetFrames_cfg f ef (cfg w)\<rparr>"

definition setDegraded_upd :: "cid \<Rightarrow> bool \<Rightarrow> world \<Rightarrow> world" where
  "setDegraded_upd c d w = (case setDegraded_cfg c d (cfg w) of None \<Rightarrow> w | Some new \<Rightarrow> w\<lparr>cfg := new\<rparr>)"

text \<open>
  \<open>cfg.lock()\<close> with the deferred \<open>cfg.unlock()\<close>: the mutation runs if the mutex is free
  and leaves it free. In a run of one goroutine nobody releases a mutex that is held: a
  call that finds it held does not return.
\<close>

definition SetLevel :: "Level \<Rightarrow> cid \<Rightarrow> world \<Rightarrow> world result" where
  "SetLevel thr c w = (if locked w then OutOfFuel else Ret (SetLevel_upd thr c w))"

definition SetFrames :: "int \<Rightarrow> int \<Rightarrow> world \<Rightarrow> world result" where
  "SetFrames f ef w = (if locked w then OutOfFuel else Ret (SetFrames_upd f ef w))"

definition setDegraded :: "cid \<Rightarrow> bool \<Rightarrow> world \<Rightarrow> world result" where
  "setDegraded c d w = (if locked w then OutOfFuel else Ret (setDegraded_upd c d w))"

section \<open>Delivery with retries and the degraded state\<close>

definition sendRetries :: int where "sendRetries = 2"

text \<open>
  \<open>recoverCollector\<close> runs deferred; it is reached here with the recovered cause and
  starts the goroutine that disposes the collector and reports the panic.
\<close>

definition recoverCollector :: "cid \<Rightarrow> string \<Rightarrow> world \<Rightarrow> world" where
  "recoverCollector c cause w = go (GoDispose c cause) w"

text \<open>The loop of \<open>sendWithRetries\<close>; its result is the returned error or the panic.\<close>

datatype loopres = Returned "error option" | Panicked string

function sendWithRetries_loop ::
  "cid \<Rightarrow> Event \<Rightarrow> int \<Rightarrow> int \<Rightarrow> error option \<Rightarrow> world \<Rightarrow> loopres \<times> world" where
  "sendWithRetries_loop c event retries attempt collectorErr w =
     (if attempt \<le> retries then
        (case collector_Collect c event w of
           (Ok, w') \<Rightarrow> (Returned None, w')
         | (Err err, w') \<Rightarrow>
             sendWithRetries_loop c event retries (attempt + 1)
               (if collectorErr = None then Some err else collectorErr) w'
         | (Panics cause, w') \<Rightarrow> (Panicked cause, w'))
      else (Returned collectorErr, w))"
  by pat_completeness auto
termination
  by (relation "measure (\<lambda>(c, event, retries, attempt, collectorErr, w). nat (retries + 1 - attempt))")
    auto

declare sendWithRetries_loop.simps [simp del]

text \<open>A recovered panic makes \<open>sendWithRetries\<close> return the zero value, the nil error.\<close>

definition sendWithRetries :: "cid \<Rightarrow> Event \<Rightarrow> int \<Rightarrow> world \<Rightarrow> error option \<times> world" where
  "sendWithRetries c event retries w =
     (case sendWithRetries_loop c event retries 0 None w of
        (Returned err, w') \<Rightarrow> (err, w')
      | (Panicked cause, w') \<Rightarrow> (None, recoverCollector c cause w'))"

definition internalContext :: Context where
  "internalContext = NewContext ''github.com/remerge/cue''"

definition degradedFormat :: string where
  "degradedFormat = ''The current collector, %s, has been in a degraded state since %s.  Delivery of this message has been attempted %d times''"

text \<open>The loop of \<open>ensureErrorSent\<close> may run forever: each round uses one unit of fuel.\<close>

fun ensureErrorSent_loop ::
  "nat \<Rightarrow> cid \<Rightarrow> error \<Rightarrow> 64 word \<Rightarrow> nat \<Rightarrow> int \<Rightarrow> world \<Rightarrow> world result" where
  "ensureErrorSent_loop 0 c err drops startTime attempt w = OutOfFuel"
| "ensureErrorSent_loop (Suc fuel) c err drops startTime attempt w =
     (let attempt' = attempt + 1;
          w1 = Sleep (backoff attempt') w;
          ctx = WithFields [(''attempts'', AInt attempt'), (''drops'', AUint drops)] internalContext;
          event = newEventf (now w1) ctx ERROR (Some err) degradedFormat
                    [ACollector c, ATime startTime, AInt attempt']
      in case collector_Collect c event w1 of
           (Ok, w2) \<Rightarrow> Ret w2
         | (Err e, w2) \<Rightarrow> ensureErrorSent_loop fuel c err drops startTime attempt' w2
         | (Panics cause, w2) \<Rightarrow> Panic cause w2)"

definition ensureErrorSent :: "nat \<Rightarrow> cid \<Rightarrow> error \<Rightarrow> 64 word \<Rightarrow> world \<Rightarrow> world result" where
  "ensureErrorSent fuel c err drops w = ensureErrorSent_loop fuel c err drops (now w) 0 w"

text \<open>
  \<open>handleDegradation\<close>: a panic of the collector in the recovery loop is recovered by the
  deferred \<open>recoverCollector\<close>, and the rest of the function is skipped.
\<close>

definition handleDegradation :: "nat \<Rightarrow> cid \<Rightarrow> error \<Rightarrow> 64 word \<Rightarrow> world \<Rightarrow> world result" where
  "handleDegradation fuel c err drops w =
     (case setDegraded c True w of
        Ret w1 \<Rightarrow>
          (let w2 = go (GoErrorf drops err c) w1
           in case ensureErrorSent fuel c err drops w2 of
                Ret w3 \<Rightarrow>
                  (case setDegraded c False w3 of
                     Ret w4 \<Rightarrow> Ret (go (GoWarnf c) w4)
                   | Panic cause w4 \<Rightarrow> Ret (recoverCollector c cause w4)
                   | OutOfFuel \<Rightarrow> OutOfFuel)
              | Panic cause w3 \<Rightarrow> Ret (recoverCollector c cause w3)
              | OutOfFuel \<Rightarrow> OutOfFuel)
      | Panic cause w1 \<Rightarrow> Ret (recoverCollector c cause w1)
      | OutOfFuel \<Rightarrow> OutOfFuel)"

section \<open>Workers: Send\<close>

text \<open>
  A worker's own mutex is held throughout \<open>Send\<close> and \<open>Terminate\<close>, and no call made
  under it takes it again: the worker read on entry is the one written back.
\<close>

definition syncWorker_sendEvent :: "nat \<Rightarrow> wref \<Rightarrow> syncWorker \<Rightarrow> Event \<Rightarrow> world \<Rightarrow> world result" where
  "syncWorker_sendEvent fuel r sw event w =
     (case sendWithRetries (sw_collector sw) event sendRetries w of
        (None, w1) \<Rightarrow> Ret w1
      | (Some err, w1) \<Rightarrow>
          (let drops = sw_drops sw + 1;
               w2 = w1\<lparr>workers := (workers w1)(r := Sync (sw\<lparr>sw_drops := drops\<rparr>))\<rparr>
           in handleDegradation fuel (sw_collector sw) err drops w2))"

definition syncWorker_Send :: "nat \<Rightarrow> wref \<Rightarrow> syncWorker \<Rightarrow> Event \<Rightarrow> world \<Rightarrow> world result" where
  "syncWorker_Send fuel r sw e w =
     (if \<not> terminated sw then syncWorker_sendEvent fuel r sw e w else Ret w)"

text \<open>
  \<open>asyncWorker.Send\<close>: the \<open>select\<close> with a \<open>default\<close> case. Sending on a closed channel
  panics (\<open>None\<close>); a nil channel is never ready; an open channel is ready while its
  buffer has room.
\<close>

definition asyncWorker_Send :: "Event \<Rightarrow> asyncWorker \<Rightarrow> asyncWorker option" where
  "asyncWorker_Send e aw =
     (case queue aw of
        None \<Rightarrow> Some (aw\<lparr>aw_drops := aw_drops aw + 1\<rparr>)
      | Some q \<Rightarrow>
          if closed q then None
          else if length (buf q) < cap q then Some (aw\<lparr>queue := Some (q\<lparr>buf := buf q @ [e]\<rparr>)\<rparr>)
          else Some (aw\<lparr>aw_drops := aw_drops aw + 1\<rparr>))"

text \<open>The interface call \<open>worker.Send(event)\<close>, logged in \<open>sent\<close>.\<close>

definition worker_Send :: "nat \<Rightarrow> wref \<Rightarrow> Event \<Rightarrow> world \<Rightarrow> world result" where
  "worker_Send fuel r e w =
     (let w0 = w\<lparr>sent := sent w @ [(r, e)]\<rparr>
      in case workers w0 r of
           Sync sw \<Rightarrow> syncWorker_Send fuel r sw e w0
         | Async aw \<Rightarrow>
             (case asyncWorker_Send e aw of
                None \<Rightarrow> Panic ''send on closed channel'' w0
              | Some aw' \<Rightarrow> Ret (w0\<lparr>workers := (workers w0)(r := Async aw')\<rparr>)))"

section \<open>The logger\<close>

text \<open>The loop of \<open>dispatchEvent\<close> over the registry of the snapshot it loaded.\<close>

fun dispatchEvent_loop :: "nat \<Rightarrow> Event \<Rightarrow> registry \<Rightarrow> world \<Rightarrow> world result" where
  "dispatchEvent_loop fuel event [] w = Ret w"
| "dispatchEvent_loop fuel event ((c, entry) # es) w =
     (if threshold entry \<ge> Level event \<and> \<not> degraded entry then
        (case worker_Send fuel (worker entry) event w of
           Ret w' \<Rightarrow> dispatchEvent_loop fuel event es w'
         | Panic cause w' \<Rightarrow> Panic cause w'
         | OutOfFuel \<Rightarrow> OutOfFuel)
      else dispatchEvent_loop fuel event es w)"

text \<open>The deferred decrement of \<open>sending\<close> runs on return and on panic alike.\<close>

definition dispatchEvent :: "nat \<Rightarrow> Event \<Rightarrow> world \<Rightarrow> world result" where
  "dispatchEvent fuel event w =
     (let w1 = w\<lparr>sending := sending w + 1\<rparr>
      in case dispatchEvent_loop fuel event (registry (cfg w1)) w1 of
           Ret w2 \<Rightarrow> Ret (w2\<lparr>sending := sending w2 - 1\<rparr>)
         | Panic cause w2 \<Rightarrow> Panic cause (w2\<lparr>sending := sending w2 - 1\<rparr>)
         | OutOfFuel \<Rightarrow> OutOfFuel)"

record logger =
  lcontext :: Context
  skipFrames :: int

definition NewLogger :: "string \<Rightarrow> logger" where
  "NewLogger n = \<lparr>lcontext = NewContext n, skipFrames = 3\<rparr>"

definition internalLogger :: logger where
  "internalLogger = NewLogger ''github.com/remerge/cue''"


definition send :: "nat \<Rightarrow> logger \<Rightarrow> Level \<Rightarrow> error option \<Rightarrow> message \<Rightarrow> world \<Rightarrow> world result" where
  "send fuel l level err msg w =
     (let config = cfg w
      in if level > cthreshold config then Ret w
         else dispatchEvent fuel
                (captureFrames (callers w) (skipFrames l) (frames config) (errorFrames config) False
                   (newEvent (now w) (lcontext l) level err msg)) w)"

definition sendf ::
  "nat \<Rightarrow> logger \<Rightarrow> Level \<Rightarrow> error option \<Rightarrow> string \<Rightarrow> fmtarg list \<Rightarrow> world \<Rightarrow> world result" where
  "sendf fuel l level err format vals w =
     (let config = cfg w
      in if level > cthreshold config then Ret w
         else dispatchEvent fuel
                (captureFrames (callers w) (skipFrames l) (frames config) (errorFrames config) False
                   (newEventf (now w) (lcontext l) level err format vals)) w)"



definition Errorf ::
  "nat \<Rightarrow> logger \<Rightarrow> error option \<Rightarrow> string \<Rightarrow> fmtarg list \<Rightarrow> world
     \<Rightarrow> (error option \<times> world) result" where
  "Errorf fuel l err format vals w =
     (if err = None then Ret (None, w)
      else case sendf fuel l ERROR err format vals w of
             Ret w' \<Rightarrow> Ret (err, w')
           | Panic cause w' \<Rightarrow> Panic cause w'
           | OutOfFuel \<Rightarrow> OutOfFuel)"

text \<open>
  A recovered cause is a string here; \<open>sendRecovery\<close> makes an error of its text.
  \<open>ReportRecovery\<close> takes the answer of \<open>ourPanic()\<close>, a fact of the calling goroutine's
  stack, as the argument \<open>ours\<close>.
\<close>

definition sendRecovery :: "nat \<Rightarrow> logger \<Rightarrow> string \<Rightarrow> message \<Rightarrow> world \<Rightarrow> world result" where
  "sendRecovery fuel l cause msg w =
     (let config = cfg w
      in if FATAL > cthreshold config then Ret w
         else dispatchEvent fuel
                (captureFrames (callers w) (skipFrames l) (frames config) (errorFrames config) True
                   ((newEvent (now w) (lcontext l) FATAL None msg)\<lparr>Error := Some cause\<rparr>)) w)"


section \<open>Workers: Terminate\<close>

definition closeCollector :: "nat \<Rightarrow> cid \<Rightarrow> world \<Rightarrow> world result" where
  "closeCollector fuel c w =
     (case closer w c of
        None \<Rightarrow> Ret w
      | Some cl \<Rightarrow>
          (let err = cl (history w c);
               w1 = w\<lparr>history := (history w)(c := history w c @ [CloseCall])\<rparr>
           in case Errorf fuel internalLogger err ''Failed to close collector %s'' [ACollector c] w1 of
                Ret (e, w2) \<Rightarrow> Ret w2
              | Panic cause w2 \<Rightarrow> Panic cause w2
              | OutOfFuel \<Rightarrow> OutOfFuel))"

definition syncWorker_Terminate :: "nat \<Rightarrow> wref \<Rightarrow> syncWorker \<Rightarrow> bool \<Rightarrow> world \<Rightarrow> world result" where
  "syncWorker_Terminate fuel r sw flush w =
     (case closeCollector fuel (sw_collector sw) w of
        Ret w1 \<Rightarrow> Ret (w1\<lparr>workers := (workers w1)(r := Sync (sw\<lparr>terminated := True\<rparr>))\<rparr>)
      | Panic cause w1 \<Rightarrow> Panic cause w1
      | OutOfFuel \<Rightarrow> OutOfFuel)"

text \<open>The fields of the asynchronous worker at \<open>r\<close> are read and written in the store.\<close>

definition the_async :: "wref \<Rightarrow> world \<Rightarrow> asyncWorker" where
  "the_async r w = (case workers w r of Async aw \<Rightarrow> aw
     | Sync sw \<Rightarrow> \<lparr>aw_drops = 0, aw_collector = sw_collector sw, queue = None, lastdrops = 0,
                   finished = True\<rparr>)"

definition upd_async :: "wref \<Rightarrow> (asyncWorker \<Rightarrow> asyncWorker) \<Rightarrow> world \<Rightarrow> world" where
  "upd_async r f w = w\<lparr>workers := (workers w)(r := Async (f (the_async r w)))\<rparr>"

definition asyncWorker_sendEvent :: "nat \<Rightarrow> wref \<Rightarrow> Event \<Rightarrow> world \<Rightarrow> world result" where
  "asyncWorker_sendEvent fuel r event w =
     (let c = aw_collector (the_async r w)
      in case sendWithRetries c event sendRetries w of
           (None, w1) \<Rightarrow> Ret w1
         | (Some err, w1) \<Rightarrow>
             (let drops = aw_drops (the_async r w1) + 1;
                  w2 = upd_async r (\<lambda>aw. aw\<lparr>aw_drops := drops\<rparr>) w1
              in case handleDegradation fuel c err drops w2 of
                   Ret w3 \<Rightarrow> Ret (upd_async r (\<lambda>aw. aw\<lparr>lastdrops := drops\<rparr>) w3)
                 | Panic cause w3 \<Rightarrow> Panic cause w3
                 | OutOfFuel \<Rightarrow> OutOfFuel))"

text \<open>\<open>cleanup\<close> with \<open>flush\<close> set receives what the closed queue still holds, in order.\<close>

fun cleanup_loop :: "nat \<Rightarrow> wref \<Rightarrow> Event list \<Rightarrow> world \<Rightarrow> world result" where
  "cleanup_loop fuel r [] w = Ret w"
| "cleanup_loop fuel r (event # es) w =
     (case asyncWorker_sendEvent fuel r event
             (upd_async r (\<lambda>aw. aw\<lparr>queue := map_option (\<lambda>q. q\<lparr>buf := es\<rparr>) (queue aw)\<rparr>) w) of
        Ret w' \<Rightarrow> cleanup_loop fuel r es w'
      | Panic cause w' \<Rightarrow> Panic cause w'
      | OutOfFuel \<Rightarrow> OutOfFuel)"

definition cleanup :: "nat \<Rightarrow> wref \<Rightarrow> bool \<Rightarrow> world \<Rightarrow> world result" where
  "cleanup fuel r flush w =
     (case (if flush
            then cleanup_loop fuel r (case queue (the_async r w) of None \<Rightarrow> [] | Some q \<Rightarrow> buf q) w
            else Ret w) of
        Ret w1 \<Rightarrow>
          (case closeCollector fuel (aw_collector (the_async r w1)) w1 of
             Ret w2 \<Rightarrow> Ret (upd_async r (\<lambda>aw. aw\<lparr>queue := None\<rparr>) w2)
           | Panic cause w2 \<Rightarrow> Panic cause w2
           | OutOfFuel \<Rightarrow> OutOfFuel)
      | Panic cause w1 \<Rightarrow> Panic cause w1
      | OutOfFuel \<Rightarrow> OutOfFuel)"

text \<open>
  \<open>asyncWorker.Terminate\<close> closes the queue and hands \<open>flush\<close> to the worker's goroutine,
  which runs \<open>cleanup\<close> and closes \<open>finished\<close>; the caller waits for that. The goroutine
  is taken to be idle and to take the termination case at once; its receiving of queued
  events in \<open>run\<close> is outside this model.
\<close>

definition asyncWorker_Terminate :: "nat \<Rightarrow> wref \<Rightarrow> asyncWorker \<Rightarrow> bool \<Rightarrow> world \<Rightarrow> world result" where
  "asyncWorker_Terminate fuel r aw flush w =
     (case queue aw of
        None \<Rightarrow> Panic ''close of nil channel'' w
      | Some q \<Rightarrow>
          if closed q then Panic ''close of closed channel'' w
          else (case cleanup fuel r flush
                       (upd_async r (\<lambda>aw. aw\<lparr>queue := Some (q\<lparr>closed := True\<rparr>)\<rparr>) w) of
                  Ret w1 \<Rightarrow> Ret (upd_async r (\<lambda>aw. aw\<lparr>finished := True\<rparr>) w1)
                | Panic cause w1 \<Rightarrow> Panic cause w1
                | OutOfFuel \<Rightarrow> OutOfFuel))"

definition worker_Terminate :: "nat \<Rightarrow> wref \<Rightarrow> bool \<Rightarrow> world \<Rightarrow> world result" where
  "worker_Terminate fuel r flush w =
     (case workers w r of
        Sync sw \<Rightarrow> syncWorker_Terminate fuel r sw flush w
      | Async aw \<Rightarrow> asyncWorker_Terminate fuel r aw flush w)"

section \<open>Registering and disposing collectors\<close>

definition alloc :: "worker \<Rightarrow> world \<Rightarrow> wref \<times> world" where
  "alloc wk w = (nworkers w, w\<lparr>workers := (workers w)(nworkers w := wk), nworkers := Suc (nworkers w)\<rparr>)"

text \<open>\<open>make(chan *Event, bufsize)\<close> panics on a negative size.\<close>

definition newWorker :: "cid \<Rightarrow> int \<Rightarrow> world \<Rightarrow> (wref \<times> world) result" where
  "newWorker c bufsize w =
     (if bufsize = 0 then Ret (alloc (Sync \<lparr>sw_collector = c, terminated = False, sw_drops = 0\<rparr>) w)
      else if bufsize < 0 then Panic ''makechan: size out of range'' w
      else Ret (alloc (Async \<lparr>aw_drops = 0, aw_collector = c,
                  queue = Some \<lparr>buf = [], cap = nat bufsize, closed = False\<rparr>,
                  lastdrops = 0, finished = False\<rparr>) w))"

text \<open>\<open>collect\<close>: the collector argument is \<open>None\<close> for the nil interface value.\<close>

definition collect :: "Level \<Rightarrow> int \<Rightarrow> cid option \<Rightarrow> world \<Rightarrow> world result" where
  "collect thr bufsize co w =
     (case co of
        None \<Rightarrow> Ret w
      | Some c \<Rightarrow>
          if locked w then OutOfFuel
          else (case reg_lookup (registry (clone (cfg w))) c of
             Some e \<Rightarrow> Ret w
           | None \<Rightarrow>
               (case newWorker c bufsize w of
                  Ret (wr, w1) \<Rightarrow>
                    (case collect_cfg thr c wr (cfg w) of
                       None \<Rightarrow> Ret w
                     | Some new \<Rightarrow> Ret (w1\<lparr>cfg := new\<rparr>))
                | Panic cause w1 \<Rightarrow> Panic cause w1
                | OutOfFuel \<Rightarrow> OutOfFuel)))"

text \<open>\<open>dispose\<close> holds the mutex while it terminates the worker.\<close>

definition dispose :: "nat \<Rightarrow> cid \<Rightarrow> world \<Rightarrow> world result" where
  "dispose fuel c w =
     (if locked w then OutOfFuel
      else case dispose_cfg c (cfg w) of
             None \<Rightarrow> Ret w
           | Some (new, entry) \<Rightarrow>
               (case worker_Terminate fuel (worker entry) False (w\<lparr>cfg := new, locked := True\<rparr>) of
                  Ret w' \<Rightarrow> Ret (w'\<lparr>locked := False\<rparr>)
                | Panic cause w' \<Rightarrow> Panic cause (w'\<lparr>locked := False\<rparr>)
                | OutOfFuel \<Rightarrow> OutOfFuel))"

section \<open>The goroutines started by the workers\<close>





section \<open>The global threshold, as the specification states it\<close>

text \<open>
  The thresholds of the entries that are not degraded; the invariant of a snapshot; and
  the snapshots that the program publishes: the initial one (which \<open>Close\<close> publishes
  again) and the result of every mutation of a published one.
\<close>

definition nondegraded :: "registry \<Rightarrow> Level list" where
  "nondegraded reg = map threshold (filter (\<lambda>e. \<not> degraded e) (map snd reg))"

definition threshold_inv :: "config \<Rightarrow> bool" where
  "threshold_inv c =
     (cthreshold c = (if nondegraded (registry c) = [] then OFF else Max (set (nondegraded (registry c)))))"

inductive published :: "config \<Rightarrow> bool" where
  init: "published newConfig"
| collect: "published old \<Longrightarrow> collect_cfg thr c wr old = Some new \<Longrightarrow> published new"
| SetLevel: "published old \<Longrightarrow> SetLevel_cfg thr c old = Some new \<Longrightarrow> published new"
| SetFrames: "published old \<Longrightarrow> published (SetFrames_cfg f ef old)"
| setDegraded: "published old \<Longrightarrow> setDegraded_cfg c d old = Some new \<Longrightarrow> published new"
| dispose: "published old \<Longrightarrow> dispose_cfg c old = Some (new, e) \<Longrightarrow> published new"

section \<open>Example configurations\<close>

definition cfgA :: config where
  "cfgA = \<lparr>cthreshold = 4, frames = 1, errorFrames = 1,
            registry = [(1, \<lparr>threshold = 4, degraded = False, worker = 0\<rparr>)]\<rparr>"
definition cfgB :: config where
  "cfgB = \<lparr>cthreshold = 5, frames = 1, errorFrames = 1,
            registry = [(1, \<lparr>threshold = 4, degraded = False, worker = 0\<rparr>),
                        (2, \<lparr>threshold = 5, degraded = False, worker = 1\<rparr>)]\<rparr>"
definition cfgC :: config where
  "cfgC = \<lparr>cthreshold = 4, frames = 1, errorFrames = 1,
            registry = [(1, \<lparr>threshold = 4, degraded = False, worker = 0\<rparr>),
                        (2, \<lparr>threshold = 5, degraded = True, worker = 1\<rparr>)]\<rparr>"
definition cfgD :: config where
  "cfgD = \<lparr>cthreshold = 3, frames = 1, errorFrames = 1,
            registry = [(1, \<lparr>threshold = 3, degraded = False, worker = 0\<rparr>),
                        (2, \<lparr>threshold = 5, degraded = True, worker = 1\<rparr>)]\<rparr>"
definition cfgE :: config where
  "cfgE = \<lparr>cthreshold = 0, frames = 1, errorFrames = 1,
            registry = [(2, \<lparr>threshold = 5, degraded = True, worker = 1\<rparr>)]\<rparr>"

section \<open>Observing deliveries\<close>

text \<open>
  For stating what a run of attempts does: the outcome of the \<open>j\<close>-th further call of
  \<open>Collect\<close> with the event \<open>ev\<close>, and the state after \<open>n\<close> such calls, which differs
  from the state before only in the calls the collector has received.
\<close>

definition attempt_outcome :: "world \<Rightarrow> cid \<Rightarrow> Event \<Rightarrow> nat \<Rightarrow> outcome" where
  "attempt_outcome w c ev j = behav w c (history w c @ replicate j (CollectCall ev)) ev"

definition after_attempts :: "world \<Rightarrow> cid \<Rightarrow> Event \<Rightarrow> nat \<Rightarrow> world" where
  "after_attempts w c ev n = w\<lparr>history := (history w)(c := history w c @ replicate n (CollectCall ev))\<rparr>"


section \<open>Example states\<close>

text \<open>
  Collectors after the test collectors of the repository: 2 fails three times and then
  accepts, 3 panics on its first call, 5 fails twice and then accepts, 6 always fails,
  every other one accepts. The worker at reference \<open>r\<close> serves the collector \<open>r\<close>; worker 7
  is asynchronous with room for one event, the others are synchronous.
\<close>

definition ex_behav :: "cid \<Rightarrow> call list \<Rightarrow> Event \<Rightarrow> outcome" where
  "ex_behav c h ev =
     (if c = 2 then (if length h < 3 then Err ''failure'' else Ok)
      else if c = 3 then (if h = [] then Panics ''boom'' else Ok)
      else if c = 5 then (if length h < 2 then Err ''failure'' else Ok)
      else if c = 6 then Err ''failure''
      else Ok)"

definition ex_workers :: "wref \<Rightarrow> worker" where
  "ex_workers r =
     (if r = 7 then Async \<lparr>aw_drops = 0, aw_collector = 7,
                     queue = Some \<lparr>buf = [], cap = 1, closed = False\<rparr>, lastdrops = 0, finished = False\<rparr>
      else Sync \<lparr>sw_collector = r, terminated = False, sw_drops = 0\<rparr>)"

definition ex_world :: "registry \<Rightarrow> world" where
  "ex_world reg =
     \<lparr>cfg = updateThreshold (newConfig\<lparr>registry := reg\<rparr>), locked = False, sending = 0, workers = ex_workers,
      nworkers = 10, history = (\<lambda>c. []), behav = ex_behav, closer = (\<lambda>c. None), spawned = [],
      now = 0, callers = (\<lambda>s d r. []), sent = []\<rparr>"

definition ex_event :: "Level \<Rightarrow> Event" where
  "ex_event lv = newEvent 0 (NewContext ''test'') lv None (''message'', [])"

definition ex_reg1 :: registry where
  "ex_reg1 = [(1, \<lparr>threshold = INFO, degraded = False, worker = 1\<rparr>),
              (4, \<lparr>threshold = OFF, degraded = False, worker = 4\<rparr>),
              (8, \<lparr>threshold = DEBUG, degraded = True, worker = 8\<rparr>),
              (7, \<lparr>threshold = DEBUG, degraded = False, worker = 7\<rparr>),
              (9, \<lparr>threshold = ERROR, degraded = False, worker = 9\<rparr>)]"


definition ex_async :: asyncWorker where
  "ex_async = \<lparr>aw_drops = 0, aw_collector = 7,
                queue = Some \<lparr>buf = [], cap = 1, closed = False\<rparr>, lastdrops = 0, finished = False\<rparr>"




section \<open>What an operation keeps of the configuration\<close>

text \<open>
  \<open>cfg_kept\<close>: the second state registers the same collectors as the first and has the
  threshold invariant if the first has it. \<open>worker_terminated\<close>: the worker has run
  \<open>Terminate\<close>.
\<close>

definition cfg_kept :: "world \<Rightarrow> world \<Rightarrow> bool" where
  "cfg_kept w w' =
     (map fst (registry (cfg w')) = map fst (registry (cfg w))
      \<and> (threshold_inv (cfg w) \<longrightarrow> threshold_inv (cfg w')))"











section \<open>Properties: backoff\<close>


lemma backoff_le_maxDelay: "backoff n \<le> maxDelay"
  by (simp add: backoff_def Let_def)

lemma sint_small: "0 \<le> x \<Longrightarrow> x < 2 ^ 63 \<Longrightarrow> sint (word_of_int x :: 64 word) = x"
  by (simp add: sint_sbintrunc' signed_take_bit_int_eq_self)

lemma backoff_below_overflow:
  assumes "1 \<le> n" "n \<le> 43"
  shows "backoff n = min (1000000 * 2 ^ nat n) maxDelay"
proof -
  have "(2::int) ^ nat n \<le> 2 ^ 43" using assms by (intro power_increasing) auto
  then have lt: "1000000 * (2::int) ^ nat n < 2 ^ 63" by simp
  have eq: "Millisecond * to_int64 (math_Pow2 n) = (word_of_int (1000000 * 2 ^ nat n) :: 64 word)"
    using assms by (simp add: math_Pow2_def to_int64_def Millisecond_def)
  have "sint (word_of_int (1000000 * 2 ^ nat n) :: 64 word) = 1000000 * 2 ^ nat n"
    using lt by (intro sint_small) auto
  then have "sint (Millisecond * to_int64 (math_Pow2 n)) = 1000000 * 2 ^ nat n"
    by (simp only: eq)
  then show ?thesis using assms
    by (simp add: backoff_def Let_def IsNaN_def IsInf_def math_Pow2_def min_def)
qed

text \<open>
  C8. The claim: for every attempt counter \<open>n \<ge> 1\<close> the backoff delay is the lesser of
  \<open>2 ^ n\<close> milliseconds and five minutes. At the attempt 44 the product of
  \<open>2 ^ 44\<close> and the nanoseconds of a millisecond no longer fits 64 bits: it wraps to a
  negative duration, which the comparison with \<open>maxDelay\<close> lets through. The code returns
  that negative delay where the claim asks for five minutes.
\<close>

theorem backoff_44_wraps:
  "backoff 44 = - 854558029293551616
   \<and> min (1000000 * 2 ^ 44) maxDelay = 300000000000
   \<and> backoff 44 \<noteq> min (1000000 * 2 ^ 44) maxDelay"
  by (simp add: backoff_def math_Pow2_def IsNaN_def IsInf_def to_int64_def Millisecond_def
      maxDelay_def Let_def)

section \<open>Properties: the configuration snapshot\<close>

lemma entry_clone_id: "entry_clone e = e"
  by (simp add: entry_clone_def)

lemma clone_id: "clone c = c"
  by (simp add: clone_def entry_clone_id)

lemma updateThreshold_loop_Max:
  "updateThreshold_loop reg mx = Max (insert mx (set (nondegraded reg)))"
proof (induction reg arbitrary: mx)
  case Nil
  then show ?case by (simp add: nondegraded_def)
next
  case (Cons p reg)
  obtain k e where p: "p = (k, e)" by (cases p)
  have fin: "finite (set (nondegraded reg))" by simp
  show ?case
  proof (cases "degraded e")
    case True
    then show ?thesis using Cons.IH [of mx] p by (simp add: nondegraded_def)
  next
    case False
    have nd: "nondegraded (p # reg) = threshold e # nondegraded reg"
      using False p by (simp add: nondegraded_def)
    have "Max (insert (max mx (threshold e)) (set (nondegraded reg)))
          = Max (insert mx (insert (threshold e) (set (nondegraded reg))))"
      using fin by (cases "set (nondegraded reg) = {}") (simp_all add: max.assoc max.commute max.left_commute)
    moreover have "(if threshold e > mx \<and> \<not> degraded e then threshold e else mx) = max mx (threshold e)"
      using False by (simp add: max_def)
    ultimately show ?thesis using Cons.IH [of "max mx (threshold e)"] p nd by simp
  qed
qed

lemma updateThreshold_inv: "threshold_inv (updateThreshold c)"
proof -
  have "updateThreshold_loop (registry c) OFF
        = (if nondegraded (registry c) = [] then OFF else Max (set (nondegraded (registry c))))"
  proof (cases "nondegraded (registry c) = []")
    case True
    then show ?thesis by (simp add: updateThreshold_loop_Max)
  next
    case False
    then have ne: "set (nondegraded (registry c)) \<noteq> {}" by simp
    have "Max (insert OFF (set (nondegraded (registry c)))) = max OFF (Max (set (nondegraded (registry c))))"
      using ne by simp
    then show ?thesis using False by (simp add: updateThreshold_loop_Max OFF_def)
  qed
  then show ?thesis by (simp add: threshold_inv_def updateThreshold_def)
qed

lemma updateThreshold_registry: "threshold_inv (updateThreshold (c\<lparr>registry := r\<rparr>))"
  by (rule updateThreshold_inv)

lemma collect_cfg_inv: "collect_cfg thr c wr old = Some new \<Longrightarrow> threshold_inv new"
  by (auto simp: collect_cfg_def Let_def updateThreshold_inv split: option.splits)
lemma SetLevel_cfg_inv: "SetLevel_cfg thr c old = Some new \<Longrightarrow> threshold_inv new"
  by (auto simp: SetLevel_cfg_def Let_def updateThreshold_inv split: option.splits)
lemma setDegraded_cfg_inv: "setDegraded_cfg c d old = Some new \<Longrightarrow> threshold_inv new"
  by (auto simp: setDegraded_cfg_def Let_def updateThreshold_inv split: option.splits)
lemma dispose_cfg_inv: "dispose_cfg c old = Some (new, e) \<Longrightarrow> threshold_inv new"
  by (auto simp: dispose_cfg_def Let_def updateThreshold_inv split: option.splits)
lemma SetFrames_cfg_eq: "SetFrames_cfg f ef old = old\<lparr>frames := f, errorFrames := ef\<rparr>"
  by (simp add: SetFrames_cfg_def clone_id)
lemma SetFrames_cfg_inv: "threshold_inv old \<Longrightarrow> threshold_inv (SetFrames_cfg f ef old)"
  by (simp add: SetFrames_cfg_eq threshold_inv_def)
lemma newConfig_inv: "threshold_inv newConfig"
  by (simp add: threshold_inv_def newConfig_def nondegraded_def)

lemma published_inv: "published c \<Longrightarrow> threshold_inv c"
  by (induction rule: published.induct)
    (auto intro: newConfig_inv collect_cfg_inv SetLevel_cfg_inv setDegraded_cfg_inv dispose_cfg_inv SetFrames_cfg_inv)

lemmas cfg_eval = collect_cfg_def SetLevel_cfg_def setDegraded_cfg_def dispose_cfg_def clone_def
  entry_clone_def reg_lookup_def reg_delete_def updateThreshold_def Let_def newConfig_def
  OFF_def FATAL_def ERROR_def WARN_def INFO_def DEBUG_def

lemma stepA: "collect_cfg INFO 1 0 newConfig = Some cfgA"
  by (simp add: cfg_eval cfgA_def)
lemma stepB: "collect_cfg DEBUG 2 1 cfgA = Some cfgB"
  by (simp add: cfg_eval cfgA_def cfgB_def)
lemma stepC: "setDegraded_cfg 2 True cfgB = Some cfgC"
  by (simp add: cfg_eval cfgB_def cfgC_def)
lemma stepD: "SetLevel_cfg WARN 1 cfgC = Some cfgD"
  by (simp add: cfg_eval cfgC_def cfgD_def)
lemma stepE: "dispose_cfg 1 cfgD = Some (cfgE, \<lparr>threshold = 3, degraded = False, worker = 0\<rparr>)"
  by (simp add: cfg_eval cfgD_def cfgE_def)



text \<open>
  C2. Every published snapshot has as its threshold the maximum of the thresholds of its
  entries that are not degraded, and \<open>OFF\<close> when there is none; and each of the four
  registry mutations (register, set level, set degraded, dispose) publishes a snapshot with
  a recomputed threshold, whatever snapshot it started from.
\<close>

theorem threshold_invariant:
  "(published c \<longrightarrow> threshold_inv c)
   \<and> (collect_cfg thr k wr old = Some new1 \<longrightarrow> threshold_inv new1)
   \<and> (SetLevel_cfg thr k old = Some new2 \<longrightarrow> threshold_inv new2)
   \<and> (setDegraded_cfg k d old = Some new3 \<longrightarrow> threshold_inv new3)
   \<and> (dispose_cfg k old = Some (new4, e) \<longrightarrow> threshold_inv new4)"
  using published_inv collect_cfg_inv SetLevel_cfg_inv setDegraded_cfg_inv dispose_cfg_inv
  by blast

theorem threshold_invariant_witness:
  "published cfgC \<and> threshold_inv cfgC \<and> cthreshold cfgC = INFO
   \<and> collect_cfg DEBUG 2 1 cfgA = Some cfgB \<and> threshold_inv cfgB \<and> cthreshold cfgB = DEBUG
   \<and> SetLevel_cfg WARN 1 cfgC = Some cfgD \<and> threshold_inv cfgD \<and> cthreshold cfgD = WARN
   \<and> setDegraded_cfg 2 True cfgB = Some cfgC
   \<and> dispose_cfg 1 cfgD = Some (cfgE, \<lparr>threshold = 3, degraded = False, worker = 0\<rparr>)
   \<and> threshold_inv cfgE \<and> cthreshold cfgE = OFF"
proof -
  have pA: "published cfgA" using published.init stepA by (rule published.collect)
  have pB: "published cfgB" using pA stepB by (rule published.collect)
  have pC: "published cfgC" using pB stepC by (rule published.setDegraded)
  have "threshold_inv cfgC"
    using threshold_invariant [of cfgC] pC by blast
  moreover have "threshold_inv cfgB"
    using threshold_invariant [of cfgC DEBUG 2 1 cfgA cfgB] stepB by blast
  moreover have "threshold_inv cfgD"
    using threshold_invariant [of cfgC WARN 1 0 cfgC cfgB cfgD] stepD by blast
  moreover have "threshold_inv cfgE"
    using threshold_invariant [of cfgC WARN 1 0 cfgD cfgB cfgD True cfgC cfgE] stepE by blast
  moreover have "cthreshold cfgC = INFO" "cthreshold cfgB = DEBUG" "cthreshold cfgD = WARN" "cthreshold cfgE = OFF"
    by (simp_all add: cfgB_def cfgC_def cfgD_def cfgE_def INFO_def DEBUG_def WARN_def OFF_def)
  ultimately show ?thesis using pC stepB stepC stepD stepE by simp
qed

text \<open>
  C9. \<open>SetFrames\<close>, once it has the mutex, publishes the previous snapshot with the two
  frame counts replaced: the threshold and the registry, with every entry's threshold,
  degraded flag and worker, are as before, and so is the rest of the state.
\<close>

theorem SetFrames_frame:
  "\<not> locked w \<longrightarrow>
     SetFrames f ef w = Ret (w\<lparr>cfg := (cfg w)\<lparr>frames := f, errorFrames := ef\<rparr>\<rparr>)
     \<and> cthreshold ((cfg w)\<lparr>frames := f, errorFrames := ef\<rparr>) = cthreshold (cfg w)
     \<and> registry ((cfg w)\<lparr>frames := f, errorFrames := ef\<rparr>) = registry (cfg w)"
  by (simp add: SetFrames_def SetFrames_upd_def SetFrames_cfg_eq)

theorem SetFrames_frame_witness:
  "SetFrames 0 8 (ex_world ex_reg1) =
     Ret ((ex_world ex_reg1)\<lparr>cfg := (cfg (ex_world ex_reg1))\<lparr>frames := 0, errorFrames := 8\<rparr>\<rparr>)
   \<and> registry ((cfg (ex_world ex_reg1))\<lparr>frames := 0, errorFrames := 8\<rparr>) = ex_reg1"
proof -
  have "\<not> locked (ex_world ex_reg1)" by (simp add: ex_world_def)
  then show ?thesis
    using SetFrames_frame [of "ex_world ex_reg1" 0 8] by (simp add: ex_world_def updateThreshold_def)
qed

section \<open>Properties: delivery with retries\<close>

lemma after_attempts_0: "after_attempts w c ev 0 = w"
  by (simp add: after_attempts_def)

lemma collector_Collect_eq:
  "collector_Collect c ev w = (attempt_outcome w c ev 0, after_attempts w c ev 1)"
  by (simp add: collector_Collect_def attempt_outcome_def after_attempts_def)

lemma attempt_outcome_after:
  "attempt_outcome (after_attempts w c ev n) c ev j = attempt_outcome w c ev (n + j)"
  by (simp add: attempt_outcome_def after_attempts_def replicate_add)

lemma after_attempts_after:
  "after_attempts (after_attempts w c ev n) c ev m = after_attempts w c ev (n + m)"
  by (simp add: after_attempts_def replicate_add)

lemma loop_stops:
  assumes "\<forall>j<i. \<exists>e. attempt_outcome w c ev j = Err e"
    and "attempt_outcome w c ev i = Ok \<or> attempt_outcome w c ev i = Panics p"
    and "a + int i \<le> retries"
  shows "sendWithRetries_loop c ev retries a cerr w =
         (if attempt_outcome w c ev i = Ok then Returned None else Panicked p, after_attempts w c ev (Suc i))"
  using assms
proof (induction i arbitrary: w a cerr)
  case 0
  then show ?case
    by (subst sendWithRetries_loop.simps) (auto simp: collector_Collect_eq)
next
  case (Suc i)
  from Suc.prems(1) obtain e where e: "attempt_outcome w c ev 0 = Err e" by auto
  let ?w = "after_attempts w c ev 1"
  have 1: "\<forall>j<i. \<exists>e. attempt_outcome ?w c ev j = Err e"
    using Suc.prems(1) by (simp add: attempt_outcome_after)
  have 2: "attempt_outcome ?w c ev i = Ok \<or> attempt_outcome ?w c ev i = Panics p"
    using Suc.prems(2) by (simp add: attempt_outcome_after)
  have 3: "(a + 1) + int i \<le> retries" using Suc.prems(3) by simp
  have le: "a \<le> retries" using Suc.prems(3) by simp
  have "sendWithRetries_loop c ev retries a cerr w
        = sendWithRetries_loop c ev retries (a + 1) (if cerr = None then Some e else cerr) ?w"
    using le e by (subst sendWithRetries_loop.simps) (simp add: collector_Collect_eq)
  also have "\<dots> = (if attempt_outcome ?w c ev i = Ok then Returned None else Panicked p,
                    after_attempts ?w c ev (Suc i))"
    by (rule Suc.IH [OF 1 2 3])
  finally show ?case by (simp add: attempt_outcome_after after_attempts_after)
qed

lemma loop_exhausted:
  assumes "\<forall>j<n. \<exists>e. attempt_outcome w c ev j = Err e"
    and "a + int n = retries + 1"
  shows "sendWithRetries_loop c ev retries a cerr w =
         (Returned (if cerr = None \<and> 0 < n then
                      (case attempt_outcome w c ev 0 of Err e \<Rightarrow> Some e | _ \<Rightarrow> None) else cerr),
          after_attempts w c ev n)"
  using assms
proof (induction n arbitrary: w a cerr)
  case 0
  then show ?case
    by (subst sendWithRetries_loop.simps) (simp add: after_attempts_0)
next
  case (Suc n)
  from Suc.prems(1) obtain e where e: "attempt_outcome w c ev 0 = Err e" by auto
  let ?w = "after_attempts w c ev 1"
  let ?cerr = "if cerr = None then Some e else cerr"
  have 1: "\<forall>j<n. \<exists>e. attempt_outcome ?w c ev j = Err e"
    using Suc.prems(1) by (simp add: attempt_outcome_after)
  have 2: "(a + 1) + int n = retries + 1" using Suc.prems(2) by simp
  have le: "a \<le> retries" using Suc.prems(2) by simp
  have "sendWithRetries_loop c ev retries a cerr w
        = sendWithRetries_loop c ev retries (a + 1) ?cerr ?w"
    using le e by (subst sendWithRetries_loop.simps) (simp add: collector_Collect_eq)
  also have "\<dots> = (Returned (if ?cerr = None \<and> 0 < n then
                      (case attempt_outcome ?w c ev 0 of Err e \<Rightarrow> Some e | _ \<Rightarrow> None) else ?cerr),
                    after_attempts ?w c ev n)"
    by (rule Suc.IH [OF 1 2])
  finally show ?case using e by (auto simp: after_attempts_after)
qed

lemma loop_bound:
  "\<exists>k. int k \<le> max 0 (retries + 1 - a) \<and> snd (sendWithRetries_loop c ev retries a cerr w) = after_attempts w c ev k"
proof (induction c ev retries a cerr w rule: sendWithRetries_loop.induct)
  case (1 c event retries attempt collectorErr w)
  show ?case
  proof (cases "attempt \<le> retries")
    case False
    then have "snd (sendWithRetries_loop c event retries attempt collectorErr w) = after_attempts w c event 0"
      by (subst sendWithRetries_loop.simps) (simp add: after_attempts_0)
    then show ?thesis by (intro exI [of _ 0]) simp
  next
    case True
    show ?thesis
    proof (cases "attempt_outcome w c event 0")
      case Ok
      then have "snd (sendWithRetries_loop c event retries attempt collectorErr w) = after_attempts w c event 1"
        using True by (subst sendWithRetries_loop.simps) (simp add: collector_Collect_eq)
      then show ?thesis using True by (intro exI [of _ 1]) simp
    next
      case (Panics p)
      then have "snd (sendWithRetries_loop c event retries attempt collectorErr w) = after_attempts w c event 1"
        using True by (subst sendWithRetries_loop.simps) (simp add: collector_Collect_eq)
      then show ?thesis using True by (intro exI [of _ 1]) simp
    next
      case (Err e)
      let ?w = "after_attempts w c event 1"
      let ?cerr = "if collectorErr = None then Some e else collectorErr"
      have eq: "sendWithRetries_loop c event retries attempt collectorErr w
        = sendWithRetries_loop c event retries (attempt + 1) ?cerr ?w"
        using True Err by (subst sendWithRetries_loop.simps) (simp add: collector_Collect_eq)
      have "\<exists>k. int k \<le> max 0 (retries + 1 - (attempt + 1)) \<and>
              snd (sendWithRetries_loop c event retries (attempt + 1) ?cerr ?w) = after_attempts ?w c event k"
        using "1.IH" [of "Err e" ?w e] True Err
        by (simp add: collector_Collect_eq)
      then obtain k where k: "int k \<le> max 0 (retries + 1 - (attempt + 1))"
        "snd (sendWithRetries_loop c event retries (attempt + 1) ?cerr ?w) = after_attempts ?w c event k"
        by blast
      show ?thesis
        using k True by (intro exI [of _ "Suc k"]) (simp add: eq after_attempts_after)
    qed
  qed
qed

section \<open>Properties: the dispatcher\<close>

lemma after_attempts_fields [simp]:
  "sent (after_attempts w c ev n) = sent w"
  "cfg (after_attempts w c ev n) = cfg w"
  "now (after_attempts w c ev n) = now w"
  "spawned (after_attempts w c ev n) = spawned w"
  "workers (after_attempts w c ev n) = workers w"
  "behav (after_attempts w c ev n) = behav w"
  "closer (after_attempts w c ev n) = closer w"
  "sending (after_attempts w c ev n) = sending w"
  "locked (after_attempts w c ev n) = locked w"
  by (simp_all add: after_attempts_def)


lemma setDegraded_sent [simp]: "sent (setDegraded_upd c d w) = sent w"
  by (simp add: setDegraded_upd_def split: option.splits)

lemma go_sent [simp]: "sent (go t w) = sent w"
  by (simp add: go_def)

lemma Sleep_sent [simp]: "sent (Sleep d w) = sent w"
  by (simp add: Sleep_def)

lemma collector_Collect_sent [simp]: "sent (snd (collector_Collect c ev w)) = sent w"
  by (simp add: collector_Collect_def)


lemma ensureErrorSent_loop_locked:
  "(ensureErrorSent_loop fuel c err drops st a w = Ret w' \<longrightarrow> locked w' = locked w)
   \<and> (ensureErrorSent_loop fuel c err drops st a w = Panic p w' \<longrightarrow> locked w' = locked w)"
proof (induction fuel arbitrary: a w)
  case 0
  then show ?case by simp
next
  case (Suc fuel)
  show ?case
    using Suc.IH
    by (auto simp: Let_def collector_Collect_def Sleep_def split: prod.splits outcome.splits)
qed

lemma handleDegradation_locked: "locked w \<Longrightarrow> handleDegradation fuel c err drops w = OutOfFuel"
  by (simp add: handleDegradation_def setDegraded_def)

lemma handleDegradation_unlocked:
  assumes "\<not> locked w"
  shows "handleDegradation fuel c err drops w =
     (case ensureErrorSent fuel c err drops (go (GoErrorf drops err c) (setDegraded_upd c True w)) of
        Ret w3 \<Rightarrow> Ret (go (GoWarnf c) (setDegraded_upd c False w3))
      | Panic cause w3 \<Rightarrow> Ret (recoverCollector c cause w3)
      | OutOfFuel \<Rightarrow> OutOfFuel)"
proof -
  let ?w2 = "go (GoErrorf drops err c) (setDegraded_upd c True w)"
  have l2: "\<not> locked ?w2"
    using assms by (simp add: go_def setDegraded_upd_def split: option.splits)
  have "\<not> locked w3" if "ensureErrorSent fuel c err drops ?w2 = Ret w3" for w3
    using that l2 ensureErrorSent_loop_locked [of fuel c err drops "now ?w2" 0 ?w2 w3]
    by (simp add: ensureErrorSent_def)
  then show ?thesis
    using assms by (auto simp: handleDegradation_def setDegraded_def Let_def split: result.splits)
qed


lemma handleDegradation_no_panic: "handleDegradation fuel c err drops w \<noteq> Panic p w'"
  by (auto simp: handleDegradation_def Let_def split: result.splits)








section \<open>Claims on delivery\<close>

text \<open>
  C3. \<open>sendWithRetries\<close> calls \<open>Collect\<close> at most \<open>retries + 1\<close> times (three times with
  the two retries of \<open>sendRetries\<close>), each time with the event it was given, and does not
  sleep: the clock is as before. It stops at the first attempt that succeeds and returns
  nil, the collector having received that one event once after its failures; when all
  \<open>retries + 1\<close> attempts fail it returns the error of the first one. In both cases the
  state changes only by the calls that the collector received.
\<close>

theorem sendWithRetries_policy:
  "(\<exists>k. int k \<le> max 0 (retries + 1)
        \<and> history (snd (sendWithRetries c ev retries w)) c = history w c @ replicate k (CollectCall ev))
   \<and> now (snd (sendWithRetries c ev retries w)) = now w
   \<and> sendRetries = 2
   \<and> ((\<forall>j<i. \<exists>e. attempt_outcome w c ev j = Err e) \<and> attempt_outcome w c ev i = Ok \<and> int i \<le> retries
        \<longrightarrow> sendWithRetries c ev retries w = (None, after_attempts w c ev (Suc i)))
   \<and> ((\<forall>j\<le>nat retries. \<exists>e. attempt_outcome w c ev j = Err e) \<and> attempt_outcome w c ev 0 = Err e0
        \<and> 0 \<le> retries
        \<longrightarrow> sendWithRetries c ev retries w = (Some e0, after_attempts w c ev (nat retries + 1)))"
proof -
  obtain k where k: "int k \<le> max 0 (retries + 1 - 0)"
    "snd (sendWithRetries_loop c ev retries 0 None w) = after_attempts w c ev k"
    using loop_bound by blast
  have snd_eq: "history (snd (sendWithRetries c ev retries w)) c = history w c @ replicate k (CollectCall ev)
      \<and> now (snd (sendWithRetries c ev retries w)) = now w"
    using k(2)
    by (cases "sendWithRetries_loop c ev retries 0 None w")
      (auto simp: sendWithRetries_def recoverCollector_def go_def after_attempts_def split: loopres.splits)
  have A: "\<exists>k. int k \<le> max 0 (retries + 1)
        \<and> history (snd (sendWithRetries c ev retries w)) c = history w c @ replicate k (CollectCall ev)"
    using k(1) snd_eq by (intro exI [of _ k]) simp
  have B: "sendWithRetries c ev retries w = (None, after_attempts w c ev (Suc i))"
    if "\<forall>j<i. \<exists>e. attempt_outcome w c ev j = Err e" "attempt_outcome w c ev i = Ok" "int i \<le> retries"
    using loop_stops [of i w c ev "''''" 0 retries None] that
    by (simp add: sendWithRetries_def)
  have C: "sendWithRetries c ev retries w = (Some e0, after_attempts w c ev (nat retries + 1))"
    if "\<forall>j\<le>nat retries. \<exists>e. attempt_outcome w c ev j = Err e" "attempt_outcome w c ev 0 = Err e0"
      "0 \<le> retries"
    using loop_exhausted [of "nat retries + 1" w c ev 0 retries None] that
    by (simp add: sendWithRetries_def)
  show ?thesis using A B C snd_eq by (simp add: sendRetries_def)
qed

theorem sendWithRetries_policy_witness:
  "sendWithRetries 5 (ex_event INFO) sendRetries (ex_world []) =
     (None, after_attempts (ex_world []) 5 (ex_event INFO) 3)
   \<and> sendWithRetries 6 (ex_event INFO) sendRetries (ex_world []) =
     (Some ''failure'', after_attempts (ex_world []) 6 (ex_event INFO) 3)
   \<and> history (after_attempts (ex_world []) 5 (ex_event INFO) 3) 5 =
       [CollectCall (ex_event INFO), CollectCall (ex_event INFO), CollectCall (ex_event INFO)]"
proof -
  have 1: "\<forall>j<2. \<exists>e. attempt_outcome (ex_world []) 5 (ex_event INFO) j = Err e"
    by (simp add: attempt_outcome_def ex_world_def ex_behav_def)
  have 2: "attempt_outcome (ex_world []) 5 (ex_event INFO) 2 = Ok"
    by (simp add: attempt_outcome_def ex_world_def ex_behav_def)
  have 3: "\<forall>j\<le>nat 2. \<exists>e. attempt_outcome (ex_world []) 6 (ex_event INFO) j = Err e"
    by (simp add: attempt_outcome_def ex_world_def ex_behav_def)
  have 4: "attempt_outcome (ex_world []) 6 (ex_event INFO) 0 = Err ''failure''"
    by (simp add: attempt_outcome_def ex_world_def ex_behav_def)
  have "sendWithRetries 5 (ex_event INFO) 2 (ex_world []) =
     (None, after_attempts (ex_world []) 5 (ex_event INFO) (Suc 2))"
    using sendWithRetries_policy [of 2 5 "ex_event INFO" "ex_world []" 2 "''''"] 1 2
    by (simp add: sendRetries_def)
  moreover have "sendWithRetries 6 (ex_event INFO) 2 (ex_world []) =
     (Some ''failure'', after_attempts (ex_world []) 6 (ex_event INFO) (nat 2 + 1))"
    using sendWithRetries_policy [of 2 6 "ex_event INFO" "ex_world []" 0 "''failure''"] 3 4
    by (simp add: sendRetries_def)
  moreover have "history (after_attempts (ex_world []) 5 (ex_event INFO) 3) 5 =
       [CollectCall (ex_event INFO), CollectCall (ex_event INFO), CollectCall (ex_event INFO)]"
    by (simp add: after_attempts_def ex_world_def numeral_3_eq_3)
  ultimately show ?thesis by (simp add: sendRetries_def numeral_3_eq_3)
qed

text \<open>
  C4. \<open>Send\<close> of an asynchronous worker whose queue is open returns at once, with no
  error: where the buffer has room the event is appended to it, and where it is full the
  event is dropped and the drop counter grows by one; nothing else in the worker changes,
  and in the state nothing but this worker.
\<close>

theorem asyncWorker_Send_nonblocking:
  "(queue aw = Some q \<and> \<not> closed q \<longrightarrow>
      asyncWorker_Send e aw =
        Some (if length (buf q) < cap q then aw\<lparr>queue := Some (q\<lparr>buf := buf q @ [e]\<rparr>)\<rparr>
              else aw\<lparr>aw_drops := aw_drops aw + 1\<rparr>))
   \<and> (workers w r = Async aw \<and> queue aw = Some q \<and> \<not> closed q \<longrightarrow>
      worker_Send fuel r e w =
        Ret (w\<lparr>sent := sent w @ [(r, e)],
               workers := (workers w)(r := Async
                 (if length (buf q) < cap q then aw\<lparr>queue := Some (q\<lparr>buf := buf q @ [e]\<rparr>)\<rparr>
                  else aw\<lparr>aw_drops := aw_drops aw + 1\<rparr>))\<rparr>))"
  by (simp add: asyncWorker_Send_def worker_Send_def Let_def)

theorem asyncWorker_Send_nonblocking_witness:
  "asyncWorker_Send (ex_event INFO) ex_async =
     Some (ex_async\<lparr>queue := Some \<lparr>buf = [ex_event INFO], cap = 1, closed = False\<rparr>\<rparr>)
   \<and> asyncWorker_Send (ex_event WARN)
        (ex_async\<lparr>queue := Some \<lparr>buf = [ex_event INFO], cap = 1, closed = False\<rparr>\<rparr>) =
     Some (ex_async\<lparr>queue := Some \<lparr>buf = [ex_event INFO], cap = 1, closed = False\<rparr>, aw_drops := 1\<rparr>)
   \<and> worker_Send 0 7 (ex_event INFO) (ex_world []) =
     Ret ((ex_world [])\<lparr>sent := [(7, ex_event INFO)],
            workers := ex_workers(7 := Async
              (ex_async\<lparr>queue := Some \<lparr>buf = [ex_event INFO], cap = 1, closed = False\<rparr>\<rparr>))\<rparr>)"
proof -
  have a: "queue ex_async = Some \<lparr>buf = [], cap = 1, closed = False\<rparr> \<and> \<not> closed \<lparr>buf = [], cap = 1, closed = False\<rparr>"
    by (simp add: ex_async_def)
  have b: "queue (ex_async\<lparr>queue := Some \<lparr>buf = [ex_event INFO], cap = 1, closed = False\<rparr>\<rparr>)
        = Some \<lparr>buf = [ex_event INFO], cap = 1, closed = False\<rparr>
      \<and> \<not> closed \<lparr>buf = [ex_event INFO], cap = 1, closed = False\<rparr>"
    by simp
  have c: "workers (ex_world []) 7 = Async ex_async"
    by (simp add: ex_world_def ex_workers_def ex_async_def)
  have 1: "asyncWorker_Send (ex_event INFO) ex_async =
     Some (ex_async\<lparr>queue := Some \<lparr>buf = [ex_event INFO], cap = 1, closed = False\<rparr>\<rparr>)"
    using asyncWorker_Send_nonblocking [of ex_async "\<lparr>buf = [], cap = 1, closed = False\<rparr>" "ex_event INFO"] a
    by simp
  have 2: "asyncWorker_Send (ex_event WARN)
        (ex_async\<lparr>queue := Some \<lparr>buf = [ex_event INFO], cap = 1, closed = False\<rparr>\<rparr>) =
     Some (ex_async\<lparr>queue := Some \<lparr>buf = [ex_event INFO], cap = 1, closed = False\<rparr>, aw_drops := 1\<rparr>)"
    using asyncWorker_Send_nonblocking
      [of "ex_async\<lparr>queue := Some \<lparr>buf = [ex_event INFO], cap = 1, closed = False\<rparr>\<rparr>"
          "\<lparr>buf = [ex_event INFO], cap = 1, closed = False\<rparr>" "ex_event WARN"] b
    by (simp add: ex_async_def)
  have 3: "worker_Send 0 7 (ex_event INFO) (ex_world []) =
     Ret ((ex_world [])\<lparr>sent := [(7, ex_event INFO)],
            workers := ex_workers(7 := Async
              (ex_async\<lparr>queue := Some \<lparr>buf = [ex_event INFO], cap = 1, closed = False\<rparr>\<rparr>))\<rparr>)"
    using asyncWorker_Send_nonblocking
      [of ex_async "\<lparr>buf = [], cap = 1, closed = False\<rparr>" "ex_event INFO" "ex_world []" 7 0] a c
    by (simp add: ex_world_def)
  show ?thesis using 1 2 3 by simp
qed






section \<open>Claims on the logger\<close>


lemma captureFrames_fields [simp]:
  "Level (captureFrames rt s d ed rec e) = Level e"
  "Error (captureFrames rt s d ed rec e) = Error e"
  "Message (captureFrames rt s d ed rec e) = Message e"
  "Context (captureFrames rt s d ed rec e) = Context e"
  by (simp_all add: captureFrames_def Let_def)






section \<open>Properties: what the operations keep of the configuration\<close>

lemma cfg_kept_refl [simp]: "cfg_kept w w"
  by (simp add: cfg_kept_def)

lemma cfg_kept_trans: "cfg_kept w w1 \<Longrightarrow> cfg_kept w1 w2 \<Longrightarrow> cfg_kept w w2"
  by (simp add: cfg_kept_def)

lemma cfg_kept_same: "cfg w' = cfg w \<Longrightarrow> cfg_kept w w'"
  by (simp add: cfg_kept_def)

lemma reg_store_keys: "map_of reg c = Some e \<Longrightarrow> map fst (reg_store c e' reg) = map fst reg"
  by (induction reg) (auto split: if_splits)


lemma setDegraded_kept: "cfg_kept w (setDegraded_upd c d w)"
proof (cases "setDegraded_cfg c d (cfg w)")
  case None
  then show ?thesis by (simp add: setDegraded_upd_def)
next
  case (Some new)
  then have inv: "threshold_inv new" by (rule setDegraded_cfg_inv)
  have "map fst (registry new) = map fst (registry (cfg w))"
    using Some
    by (auto simp: setDegraded_cfg_def clone_id reg_lookup_def updateThreshold_def reg_store_keys
        Let_def split: option.splits)
  then show ?thesis using Some inv by (simp add: setDegraded_upd_def cfg_kept_def)
qed

lemma go_cfg [simp]: "cfg (go t w) = cfg w"
  by (simp add: go_def)

lemma sendWithRetries_cfg: "cfg (snd (sendWithRetries c ev retries w)) = cfg w"
proof -
  obtain k where "snd (sendWithRetries_loop c ev retries 0 None w) = after_attempts w c ev k"
    using loop_bound by blast
  then show ?thesis
    by (cases "sendWithRetries_loop c ev retries 0 None w")
      (auto simp: sendWithRetries_def recoverCollector_def split: loopres.splits)
qed

lemma ensureErrorSent_loop_cfg:
  "(ensureErrorSent_loop fuel c err drops st a w = Ret w' \<longrightarrow> cfg w' = cfg w)
   \<and> (ensureErrorSent_loop fuel c err drops st a w = Panic p w' \<longrightarrow> cfg w' = cfg w)"
proof (induction fuel arbitrary: a w)
  case 0
  then show ?case by simp
next
  case (Suc fuel)
  show ?case
    using Suc.IH
    by (auto simp: Let_def collector_Collect_def Sleep_def split: prod.splits outcome.splits)
qed

lemma handleDegradation_kept:
  assumes "handleDegradation fuel c err drops w = Ret w'"
  shows "cfg_kept w w'"
proof -
  have nl: "\<not> locked w"
    using assms by (cases "locked w") (simp_all add: handleDegradation_locked)
  note hd = handleDegradation_unlocked [OF nl, of fuel c err drops]
  let ?w2 = "go (GoErrorf drops err c) (setDegraded_upd c True w)"
  have k2: "cfg_kept w ?w2"
    using setDegraded_kept [of w c True] by (simp add: cfg_kept_def)
  show ?thesis
  proof (cases "ensureErrorSent fuel c err drops ?w2")
    case (Ret w3)
    then have w': "w' = go (GoWarnf c) (setDegraded_upd c False w3)"
      using assms by (simp add: hd)
    have "cfg w3 = cfg ?w2"
      using Ret ensureErrorSent_loop_cfg [of fuel c err drops "now ?w2" 0 ?w2 w3]
      by (simp add: ensureErrorSent_def)
    then have "cfg_kept ?w2 w3" by (rule cfg_kept_same)
    moreover have "cfg_kept w3 w'"
      using setDegraded_kept [of w3 c False] w' by (simp add: cfg_kept_def)
    ultimately show ?thesis using k2 cfg_kept_trans by blast
  next
    case (Panic p w3)
    then have w': "w' = recoverCollector c p w3"
      using assms by (simp add: hd)
    have "cfg w3 = cfg ?w2"
      using Panic ensureErrorSent_loop_cfg [of fuel c err drops "now ?w2" 0 ?w2 w3 p]
      by (simp add: ensureErrorSent_def)
    then have "cfg_kept ?w2 w'" using w' by (simp add: cfg_kept_def recoverCollector_def)
    then show ?thesis using k2 cfg_kept_trans by blast
  next
    case OutOfFuel
    then show ?thesis using assms by (simp add: hd)
  qed
qed

lemma syncWorker_Send_kept:
  assumes "syncWorker_Send fuel r sw ev w = Ret w'"
  shows "cfg_kept w w'"
proof (cases "terminated sw")
  case True
  then show ?thesis using assms by (simp add: syncWorker_Send_def)
next
  case False
  obtain err w1 where s: "sendWithRetries (sw_collector sw) ev sendRetries w = (err, w1)"
    by (cases "sendWithRetries (sw_collector sw) ev sendRetries w")
  have w1: "cfg w1 = cfg w" using sendWithRetries_cfg [of "sw_collector sw" ev sendRetries w] s by simp
  show ?thesis
  proof (cases err)
    case None
    then show ?thesis using assms False s w1
      by (simp add: syncWorker_Send_def syncWorker_sendEvent_def cfg_kept_same)
  next
    case (Some e)
    let ?w2 = "w1\<lparr>workers := (workers w1)(r := Sync (sw\<lparr>sw_drops := sw_drops sw + 1\<rparr>))\<rparr>"
    have "handleDegradation fuel (sw_collector sw) e (sw_drops sw + 1) ?w2 = Ret w'"
      using Some assms False s by (simp add: syncWorker_Send_def syncWorker_sendEvent_def Let_def)
    from handleDegradation_kept [OF this] have "cfg_kept ?w2 w'" .
    moreover have "cfg_kept w ?w2" using w1 by (simp add: cfg_kept_def)
    ultimately show ?thesis using cfg_kept_trans by blast
  qed
qed

lemma worker_Send_kept:
  assumes "worker_Send fuel r ev w = Ret w'"
  shows "cfg_kept w w'"
proof (cases "workers w r")
  case (Sync sw)
  then have "syncWorker_Send fuel r sw ev (w\<lparr>sent := sent w @ [(r, ev)]\<rparr>) = Ret w'"
    using assms by (simp add: worker_Send_def Let_def)
  from syncWorker_Send_kept [OF this] show ?thesis by (simp add: cfg_kept_def)
next
  case (Async aw)
  then show ?thesis using assms
    by (auto simp: worker_Send_def Let_def cfg_kept_def split: option.splits)
qed

lemma dispatchEvent_loop_kept:
  "dispatchEvent_loop fuel ev reg w = Ret w' \<Longrightarrow> cfg_kept w w'"
proof (induction reg arbitrary: w)
  case Nil
  then show ?case by simp
next
  case (Cons p reg)
  obtain c e where p: "p = (c, e)" by (cases p)
  show ?case
  proof (cases "Level ev \<le> threshold e \<and> \<not> degraded e")
    case False
    then show ?thesis using Cons p by auto
  next
    case True
    then obtain w1 where w1: "worker_Send fuel (worker e) ev w = Ret w1"
      and rest: "dispatchEvent_loop fuel ev reg w1 = Ret w'"
      using Cons.prems p by (auto split: result.splits)
    show ?thesis
      using Cons.IH [OF rest] worker_Send_kept [OF w1] cfg_kept_trans by blast
  qed
qed

lemma dispatchEvent_kept:
  assumes "dispatchEvent fuel ev w = Ret w'"
  shows "cfg_kept w w'"
proof -
  obtain w2 where w2: "dispatchEvent_loop fuel ev (registry (cfg w)) (w\<lparr>sending := sending w + 1\<rparr>) = Ret w2"
    and w': "w' = w2\<lparr>sending := sending w2 - 1\<rparr>"
    using assms by (auto simp: dispatchEvent_def Let_def split: result.splits)
  from dispatchEvent_loop_kept [OF w2] show ?thesis using w' by (simp add: cfg_kept_def)
qed


lemma send_kept: "send fuel l lv err msg w = Ret w' \<Longrightarrow> cfg_kept w w'"
  by (auto simp: send_def Let_def dispatchEvent_kept split: if_splits)

lemma sendRecovery_kept: "sendRecovery fuel l cause msg w = Ret w' \<Longrightarrow> cfg_kept w w'"
  by (auto simp: sendRecovery_def Let_def dispatchEvent_kept split: if_splits)





section \<open>Claims on collector panics\<close>







section \<open>Claims on degradation\<close>







end
